theory Spec2Isabelle
  imports Complex_Main "HOL-Library.Word"
begin

section \<open>Points of the Python API (Sources/API/Python/Point/Point.cpp)\<close>

text \<open>
  \<^verbatim>\<open>Point2UI\<close> and \<open>Point3UI\<close> are plain structs of \<open>size_t\<close> coordinates.  Their
  declaration (Core/Point/Point2.h, Core/Point/Point3.h) is not among the sources; the
  binding code reads and writes the members \<open>x\<close>, \<open>y\<close> (and \<open>z\<close>), calls the
  constructor with one value per member and compares with \<open>==\<close>.  The members are
  64-bit words; \<open>==\<close> of two structs is equality of the two values.
\<close>

type_synonym size_t = "64 word"

record Point2UI =
  Point2UI_x :: size_t
  Point2UI_y :: size_t

record Point3UI =
  Point3UI_x :: size_t
  Point3UI_y :: size_t
  Point3UI_z :: size_t

text \<open>
  \<^verbatim>\<open>.def("__init__", [](Point2UI& instance, size_t x, size_t y) { new (&instance) Point2UI(x, y); },
       ..., pybind11::arg("x") = 0, pybind11::arg("y") = 0)\<close>
  An argument the Python caller leaves out is \<open>None\<close> here and takes the default
  of its \<open>pybind11::arg\<close>.
\<close>

definition Point2UI_init :: "size_t option \<Rightarrow> size_t option \<Rightarrow> Point2UI" where
  "Point2UI_init ax ay =
     \<lparr>Point2UI_x = (case ax of None \<Rightarrow> 0 | Some v \<Rightarrow> v),
      Point2UI_y = (case ay of None \<Rightarrow> 0 | Some v \<Rightarrow> v)\<rparr>"

definition Point3UI_init ::
  "size_t option \<Rightarrow> size_t option \<Rightarrow> size_t option \<Rightarrow> Point3UI" where
  "Point3UI_init ax ay az =
     \<lparr>Point3UI_x = (case ax of None \<Rightarrow> 0 | Some v \<Rightarrow> v),
      Point3UI_y = (case ay of None \<Rightarrow> 0 | Some v \<Rightarrow> v),
      Point3UI_z = (case az of None \<Rightarrow> 0 | Some v \<Rightarrow> v)\<rparr>"

text \<open>
  \<^verbatim>\<open>.def("__eq__", [](const Point2UI& instance, pybind11::object obj) {
         Point2UI other = ObjectToPoint2UI(obj);
         return instance == other; })\<close>
  The converter \<open>ObjectToPoint2UI\<close> (API/Python/Utils/pybind11Utils.h) is not among
  the sources: it is a parameter, and may refuse an object (\<open>Inl\<close>), in which case
  nothing is compared.
\<close>

definition Point2UI_eq ::
  "('obj \<Rightarrow> 'e + Point2UI) \<Rightarrow> Point2UI \<Rightarrow> 'obj \<Rightarrow> 'e + bool" where
  "Point2UI_eq ObjectToPoint2UI inst obj =
     (case ObjectToPoint2UI obj of
        Inl e \<Rightarrow> Inl e
      | Inr other \<Rightarrow> Inr (inst = other))"

definition Point3UI_eq ::
  "('obj \<Rightarrow> 'e + Point3UI) \<Rightarrow> Point3UI \<Rightarrow> 'obj \<Rightarrow> 'e + bool" where
  "Point3UI_eq ObjectToPoint3UI inst obj =
     (case ObjectToPoint3UI obj of
        Inl e \<Rightarrow> Inl e
      | Inr other \<Rightarrow> Inr (inst = other))"


section \<open>Grid shapes (Sources/API/Python/Grid/Grid.cpp)\<close>

type_synonym Vector2D = "real \<times> real"
type_synonym Vector3D = "real \<times> real \<times> real"
type_synonym Size2 = "nat \<times> nat"
type_synonym Size3 = "nat \<times> nat \<times> nat"

text \<open>
  A grid stores its shape only: \<open>resolution\<close>, \<open>origin\<close> and \<open>gridSpacing\<close>,
  the three read-only properties the binding exposes.  Resolutions are \<open>size_t\<close>
  in the source; the loops below count from 0 up to a resolution component and never
  pass it, so no counter wraps and natural numbers stand for them.  Coordinates are
  real numbers.
\<close>

record Grid2 =
  resolution :: Size2
  origin :: Vector2D
  gridSpacing :: Vector2D

record Grid3 =
  resolution3 :: Size3
  origin3 :: Vector3D
  gridSpacing3 :: Vector3D

subsection \<open>ForEachCellIndex\<close>

text \<open>
  Modelled from the spec: \<open>Grid2::ForEachCellIndex\<close> and \<open>Grid3::ForEachCellIndex\<close>
  (Core/Grid/Grid2.cpp and Grid3.cpp are not among the sources; the binding only
  forwards to them).  The spec asks for a serial per-cell iteration that invokes the
  function once per cell index, i-first and last-axis-last; the binding's docstrings
  say "in serial manner ... The order of execution is i-first, j-last" (k-last in 3-D).
  That is a loop nest with the last axis outermost and \<open>i\<close> innermost.  The callback
  is a state transformer: what it accumulates is the state threaded through the calls.
\<close>

function ForEachCellIndex_i ::
  "nat \<Rightarrow> (nat \<Rightarrow> 's \<Rightarrow> 's) \<Rightarrow> nat \<Rightarrow> 's \<Rightarrow> 's" where
  "ForEachCellIndex_i nx func i s =
     (if i < nx then ForEachCellIndex_i nx func (Suc i) (func i s) else s)"
  by pat_completeness auto
termination
  by (relation "measure (\<lambda>(nx, func, i, s). nx - i)") auto

function ForEachCellIndex_j ::
  "nat \<Rightarrow> nat \<Rightarrow> (nat \<Rightarrow> nat \<Rightarrow> 's \<Rightarrow> 's) \<Rightarrow> nat \<Rightarrow> 's \<Rightarrow> 's" where
  "ForEachCellIndex_j nx ny func j s =
     (if j < ny
      then ForEachCellIndex_j nx ny func (Suc j)
             (ForEachCellIndex_i nx (\<lambda>i. func i j) 0 s)
      else s)"
  by pat_completeness auto
termination
  by (relation "measure (\<lambda>(nx, ny, func, j, s). ny - j)") auto

function ForEachCellIndex_k ::
  "nat \<Rightarrow> nat \<Rightarrow> nat \<Rightarrow> (nat \<Rightarrow> nat \<Rightarrow> nat \<Rightarrow> 's \<Rightarrow> 's) \<Rightarrow> nat \<Rightarrow> 's \<Rightarrow> 's" where
  "ForEachCellIndex_k nx ny nz func k s =
     (if k < nz
      then ForEachCellIndex_k nx ny nz func (Suc k)
             (ForEachCellIndex_j nx ny (\<lambda>i j. func i j k) 0 s)
      else s)"
  by pat_completeness auto
termination
  by (relation "measure (\<lambda>(nx, ny, nz, func, k, s). nz - k)") auto

declare ForEachCellIndex_i.simps [simp del]
declare ForEachCellIndex_j.simps [simp del]
declare ForEachCellIndex_k.simps [simp del]

definition Grid2_ForEachCellIndex ::
  "Grid2 \<Rightarrow> (nat \<Rightarrow> nat \<Rightarrow> 's \<Rightarrow> 's) \<Rightarrow> 's \<Rightarrow> 's" where
  "Grid2_ForEachCellIndex g func s =
     (case resolution g of (nx, ny) \<Rightarrow> ForEachCellIndex_j nx ny func 0 s)"

definition Grid3_ForEachCellIndex ::
  "Grid3 \<Rightarrow> (nat \<Rightarrow> nat \<Rightarrow> nat \<Rightarrow> 's \<Rightarrow> 's) \<Rightarrow> 's \<Rightarrow> 's" where
  "Grid3_ForEachCellIndex g func s =
     (case resolution3 g of (nx, ny, nz) \<Rightarrow> ForEachCellIndex_k nx ny nz func 0 s)"

text \<open>
  The order the claim describes, written from its words: the \<open>n\<close>-th cell visited
  (counting from 0) has \<open>i = n mod nx\<close>, so \<open>i\<close> changes at every step, and the last
  axis index is the quotient by the size of one full sweep of the other axes, so it
  changes last.
\<close>

definition cellOrder2 :: "Size2 \<Rightarrow> (nat \<times> nat) list" where
  "cellOrder2 r =
     (case r of (nx, ny) \<Rightarrow> map (\<lambda>n. (n mod nx, n div nx)) [0..<nx * ny])"

definition cellOrder3 :: "Size3 \<Rightarrow> (nat \<times> nat \<times> nat) list" where
  "cellOrder3 r =
     (case r of (nx, ny, nz) \<Rightarrow>
        map (\<lambda>n. (n mod nx, (n div nx) mod ny, n div (nx * ny))) [0..<nx * ny * nz])"

text \<open>The cells of a grid: every index below the resolution on each axis.\<close>

definition cells2 :: "Size2 \<Rightarrow> (nat \<times> nat) set" where
  "cells2 r = (case r of (nx, ny) \<Rightarrow> {0..<nx} \<times> {0..<ny})"

definition cells3 :: "Size3 \<Rightarrow> (nat \<times> nat \<times> nat) set" where
  "cells3 r = (case r of (nx, ny, nz) \<Rightarrow> {0..<nx} \<times> {0..<ny} \<times> {0..<nz})"


section \<open>Fields and the default arguments of Solve
  (Includes/Core/Solver/Grid/GridPressureSolver2.h)\<close>

















subsection \<open>What the fields of a call mean\<close>





section \<open>Properties of the points\<close>

text \<open>
  C10.  Every coordinate a Python caller leaves out of the constructor of a
  \<open>Point2UI\<close> or a \<open>Point3UI\<close> is 0 in the point built, whatever the other
  coordinates are, and every coordinate given is the one built; so a point built with
  no arguments has every coordinate 0.  \<open>__eq__\<close> first converts its right-hand
  argument to a point of the same type; if the conversion refuses the object, that is
  the outcome; otherwise the answer is true exactly when the points agree on every
  coordinate.
\<close>

theorem Point_init_defaults_and_eq:
  "Point2UI_init None None = \<lparr>Point2UI_x = 0, Point2UI_y = 0\<rparr>
   \<and> Point2UI_init (Some a) None = \<lparr>Point2UI_x = a, Point2UI_y = 0\<rparr>
   \<and> Point2UI_init None (Some b) = \<lparr>Point2UI_x = 0, Point2UI_y = b\<rparr>
   \<and> Point3UI_init None None None = \<lparr>Point3UI_x = 0, Point3UI_y = 0, Point3UI_z = 0\<rparr>
   \<and> Point3UI_init (Some a) None None = \<lparr>Point3UI_x = a, Point3UI_y = 0, Point3UI_z = 0\<rparr>
   \<and> Point3UI_init None (Some b) None = \<lparr>Point3UI_x = 0, Point3UI_y = b, Point3UI_z = 0\<rparr>
   \<and> Point3UI_init None None (Some c) = \<lparr>Point3UI_x = 0, Point3UI_y = 0, Point3UI_z = c\<rparr>
   \<and> Point2UI_x (Point2UI_init None ay) = 0
   \<and> Point2UI_y (Point2UI_init ax None) = 0
   \<and> Point2UI_x (Point2UI_init (Some a) ay) = a
   \<and> Point2UI_y (Point2UI_init ax (Some b)) = b
   \<and> Point3UI_x (Point3UI_init None ay az) = 0
   \<and> Point3UI_y (Point3UI_init ax None az) = 0
   \<and> Point3UI_z (Point3UI_init ax ay None) = 0
   \<and> Point3UI_x (Point3UI_init (Some a) ay az) = a
   \<and> Point3UI_y (Point3UI_init ax (Some b) az) = b
   \<and> Point3UI_z (Point3UI_init ax ay (Some c)) = c
   \<and> Point2UI_eq conv2 p obj =
       (case conv2 obj of
          Inl e \<Rightarrow> Inl e
        | Inr q \<Rightarrow> Inr (Point2UI_x p = Point2UI_x q \<and> Point2UI_y p = Point2UI_y q))
   \<and> Point3UI_eq conv3 p3 obj =
       (case conv3 obj of
          Inl e \<Rightarrow> Inl e
        | Inr q \<Rightarrow> Inr (Point3UI_x p3 = Point3UI_x q \<and> Point3UI_y p3 = Point3UI_y q
                        \<and> Point3UI_z p3 = Point3UI_z q))"
  by (auto simp: Point2UI_init_def Point3UI_init_def Point2UI_eq_def Point3UI_eq_def
           split: sum.splits)


section \<open>Properties of the cell iteration\<close>

text \<open>The loops, unrolled: each is a fold over the range of its counter.\<close>

lemma ForEachCellIndex_i_fold:
  "ForEachCellIndex_i nx func i s = fold func [i..<nx] s"
proof (induction nx func i s rule: ForEachCellIndex_i.induct)
  case (1 nx func i s)
  show ?case
  proof (cases "i < nx")
    case True
    have "ForEachCellIndex_i nx func i s = ForEachCellIndex_i nx func (Suc i) (func i s)"
      using True by (subst ForEachCellIndex_i.simps) simp
    also have "\<dots> = fold func [Suc i..<nx] (func i s)"
      using 1 True by simp
    also have "\<dots> = fold func [i..<nx] s"
      using True by (simp add: upt_conv_Cons)
    finally show ?thesis .
  next
    case False
    then show ?thesis by (subst ForEachCellIndex_i.simps) simp
  qed
qed

lemma ForEachCellIndex_j_fold:
  "ForEachCellIndex_j nx ny func j s =
     fold (\<lambda>j. fold (\<lambda>i. func i j) [0..<nx]) [j..<ny] s"
proof (induction nx ny func j s rule: ForEachCellIndex_j.induct)
  case (1 nx ny func j s)
  show ?case
  proof (cases "j < ny")
    case True
    have "ForEachCellIndex_j nx ny func j s =
            ForEachCellIndex_j nx ny func (Suc j) (ForEachCellIndex_i nx (\<lambda>i. func i j) 0 s)"
      using True by (subst ForEachCellIndex_j.simps) simp
    also have "\<dots> = fold (\<lambda>j. fold (\<lambda>i. func i j) [0..<nx]) [Suc j..<ny]
                        (fold (\<lambda>i. func i j) [0..<nx] s)"
      using 1 True by (simp add: ForEachCellIndex_i_fold)
    also have "\<dots> = fold (\<lambda>j. fold (\<lambda>i. func i j) [0..<nx]) [j..<ny] s"
      using True by (simp add: upt_conv_Cons)
    finally show ?thesis .
  next
    case False
    then show ?thesis by (subst ForEachCellIndex_j.simps) simp
  qed
qed

lemma ForEachCellIndex_k_fold:
  "ForEachCellIndex_k nx ny nz func k s =
     fold (\<lambda>k. fold (\<lambda>j. fold (\<lambda>i. func i j k) [0..<nx]) [0..<ny]) [k..<nz] s"
proof (induction nx ny nz func k s rule: ForEachCellIndex_k.induct)
  case (1 nx ny nz func k s)
  show ?case
  proof (cases "k < nz")
    case True
    have "ForEachCellIndex_k nx ny nz func k s =
            ForEachCellIndex_k nx ny nz func (Suc k)
              (ForEachCellIndex_j nx ny (\<lambda>i j. func i j k) 0 s)"
      using True by (subst ForEachCellIndex_k.simps) simp
    also have "\<dots> = fold (\<lambda>k. fold (\<lambda>j. fold (\<lambda>i. func i j k) [0..<nx]) [0..<ny]) [Suc k..<nz]
                        (fold (\<lambda>j. fold (\<lambda>i. func i j k) [0..<nx]) [0..<ny] s)"
      using 1 True by (simp add: ForEachCellIndex_j_fold)
    also have "\<dots> = fold (\<lambda>k. fold (\<lambda>j. fold (\<lambda>i. func i j k) [0..<nx]) [0..<ny]) [k..<nz] s"
      using True by (simp add: upt_conv_Cons)
    finally show ?thesis .
  next
    case False
    then show ?thesis by (subst ForEachCellIndex_k.simps) simp
  qed
qed

lemma upt_shift: "[m..<m + n] = map (\<lambda>i. i + m) [0..<n]"
  by (simp add: map_add_upt add.commute)

lemma upt_mult_Suc: "[0..<nx * Suc ny] = [0..<nx * ny] @ [nx * ny..<nx * ny + nx]"
proof -
  have "[0..<nx * ny + nx] = [0..<nx * ny] @ [nx * ny..<nx * ny + nx]"
    by (rule upt_add_eq_append) simp
  then show ?thesis by (simp add: add.commute)
qed

lemma sweep_segment:
  "map (\<lambda>n. (n mod nx, n div nx)) [nx * j..<nx * j + nx] = map (\<lambda>i. (i, j)) [0..<nx]"
  by (simp add: upt_shift [of "nx * j" nx] comp_def)

lemma cellOrder2_nested:
  "cellOrder2 (nx, ny) = concat (map (\<lambda>j. map (\<lambda>i. (i, j)) [0..<nx]) [0..<ny])"
proof (induction ny)
  case 0
  show ?case by (simp add: cellOrder2_def)
next
  case (Suc ny)
  have "cellOrder2 (nx, Suc ny) =
          cellOrder2 (nx, ny) @ map (\<lambda>n. (n mod nx, n div nx)) [nx * ny..<nx * ny + nx]"
    unfolding cellOrder2_def by (simp only: prod.case upt_mult_Suc map_append)
  then show ?case using Suc by (simp add: sweep_segment)
qed

lemma fold_nested2:
  "fold (\<lambda>(i, j). func i j) (concat (map (\<lambda>j. map (\<lambda>i. (i, j)) xs) ys)) s =
     fold (\<lambda>j. fold (\<lambda>i. func i j) xs) ys s"
  by (induction ys arbitrary: s) (simp_all add: fold_map comp_def)

lemma set_cellOrder2: "set (cellOrder2 r) = cells2 r"
  by (cases r) (auto simp: cellOrder2_nested cells2_def)

lemma div_mod_determine:
  "(n::nat) mod d = m mod d \<Longrightarrow> n div d = m div d \<Longrightarrow> n = m"
  by (metis div_mult_mod_eq)

lemma distinct_cellOrder2: "distinct (cellOrder2 r)"
  by (cases r) (auto simp: cellOrder2_def distinct_map inj_on_def dest: div_mod_determine)


lemma slab_segment:
  "map (\<lambda>n. (n mod nx, (n div nx) mod ny, n div (nx * ny)))
       [nx * ny * k..<nx * ny * k + nx * ny] =
   map (\<lambda>(i, j). (i, j, k)) (cellOrder2 (nx, ny))"
proof -
  have pt: "((m + nx * ny * k) mod nx, ((m + nx * ny * k) div nx) mod ny,
             (m + nx * ny * k) div (nx * ny)) = (m mod nx, m div nx, k)"
    if "m < nx * ny" for m
  proof -
    from that have nx: "0 < nx" and ny: "0 < ny" by (cases nx; cases ny; simp)+
    have a: "m + nx * ny * k = m + nx * (ny * k)" by (simp add: mult.assoc)
    have d: "m div nx < ny"
      using that nx by (simp add: less_mult_imp_div_less mult.commute)
    have "(m + nx * (ny * k)) div nx = m div nx + ny * k" using nx by simp
    moreover have "(m div nx + ny * k) mod ny = m div nx" using d by simp
    moreover have "(m + nx * ny * k) div (nx * ny) = k" using that nx ny by simp
    ultimately show ?thesis by (simp add: a)
  qed
  have "map (\<lambda>n. (n mod nx, (n div nx) mod ny, n div (nx * ny)))
          [nx * ny * k..<nx * ny * k + nx * ny] =
        map (\<lambda>m. ((m + nx * ny * k) mod nx, ((m + nx * ny * k) div nx) mod ny,
                    (m + nx * ny * k) div (nx * ny))) [0..<nx * ny]"
    by (simp add: upt_shift [of "nx * ny * k" "nx * ny"] comp_def)
  also have "\<dots> = map (\<lambda>m. (m mod nx, m div nx, k)) [0..<nx * ny]"
    by (rule map_cong) (simp_all add: pt)
  finally show ?thesis by (simp add: cellOrder2_def comp_def)
qed

lemma cellOrder3_nested:
  "cellOrder3 (nx, ny, nz) =
     concat (map (\<lambda>k. map (\<lambda>(i, j). (i, j, k)) (cellOrder2 (nx, ny))) [0..<nz])"
proof (induction nz)
  case 0
  show ?case by (simp add: cellOrder3_def)
next
  case (Suc nz)
  have "cellOrder3 (nx, ny, Suc nz) =
          cellOrder3 (nx, ny, nz) @
          map (\<lambda>n. (n mod nx, (n div nx) mod ny, n div (nx * ny)))
            [nx * ny * nz..<nx * ny * nz + nx * ny]"
    unfolding cellOrder3_def
    by (simp only: prod.case upt_mult_Suc [of "nx * ny" nz] map_append)
  then show ?case using Suc by (simp add: slab_segment)
qed

lemma fold_nested3:
  "fold (\<lambda>(i, j, k). func i j k)
        (concat (map (\<lambda>k. map (\<lambda>(i, j). (i, j, k)) ps) zs)) s =
     fold (\<lambda>k. fold (\<lambda>(i, j). func i j k) ps) zs s"
  by (induction zs arbitrary: s) (simp_all add: fold_map comp_def case_prod_unfold)

lemma Grid2_ForEachCellIndex_fold:
  "Grid2_ForEachCellIndex g func s = fold (\<lambda>(i, j). func i j) (cellOrder2 (resolution g)) s"
  by (cases "resolution g")
     (simp add: Grid2_ForEachCellIndex_def ForEachCellIndex_j_fold cellOrder2_nested fold_nested2)

lemma Grid3_ForEachCellIndex_fold:
  "Grid3_ForEachCellIndex g func s =
     fold (\<lambda>(i, j, k). func i j k) (cellOrder3 (resolution3 g)) s"
proof (cases "resolution3 g")
  case (fields nx ny nz)
  have "fold (\<lambda>(i, j). func i j k) (cellOrder2 (nx, ny)) =
        fold (\<lambda>j. fold (\<lambda>i. func i j k) [0..<nx]) [0..<ny]" for k
    by (rule ext) (simp add: cellOrder2_nested fold_nested2 [of "\<lambda>i j. func i j k"])
  then show ?thesis
    by (simp add: fields Grid3_ForEachCellIndex_def ForEachCellIndex_k_fold
                  cellOrder3_nested fold_nested3)
qed

lemma set_cellOrder3: "set (cellOrder3 r) = cells3 r"
proof (cases r)
  case (fields nx ny nz)
  have "set (cellOrder2 (nx, ny)) = {0..<nx} \<times> {0..<ny}"
    using set_cellOrder2 [of "(nx, ny)"] by (simp add: cells2_def)
  then show ?thesis
    by (auto simp: fields cellOrder3_nested cells3_def)
qed

lemma distinct_cellOrder3: "distinct (cellOrder3 r)"
proof (cases r)
  case (fields nx ny nz)
  have "inj_on (\<lambda>n. (n mod nx, (n div nx) mod ny, n div (nx * ny))) A" for A
  proof (rule inj_onI)
    fix n m
    assume "(n mod nx, (n div nx) mod ny, n div (nx * ny)) =
            (m mod nx, (m div nx) mod ny, m div (nx * ny))"
    then have 1: "n mod nx = m mod nx" and 2: "(n div nx) mod ny = (m div nx) mod ny"
      and 3: "(n div nx) div ny = (m div nx) div ny"
      by (simp_all add: div_mult2_eq)
    from 2 3 have "n div nx = m div nx" by (rule div_mod_determine)
    with 1 show "n = m" by (rule div_mod_determine)
  qed
  then show ?thesis by (simp add: fields cellOrder3_def distinct_map)
qed

text \<open>
  On a grid of 3 by 2 cells, a callback that appends the index it receives ends with
  the six cells in the order the loops visit them.
\<close>

lemma ForEachCellIndex_example:
  "Grid2_ForEachCellIndex \<lparr>resolution = (3, 2), origin = (0, 0), gridSpacing = (1, 1)\<rparr>
     (\<lambda>i j tr. tr @ [(i, j)]) [] = [(0, 0), (1, 0), (2, 0), (0, 1), (1, 1), (2, 1)]"
  by (simp add: Grid2_ForEachCellIndex_def ForEachCellIndex_j_fold upt_conv_Cons)

text \<open>A callback that records the index it is called with rebuilds the list it is run along.\<close>

lemma fold_record_indices: "fold (\<lambda>c tr. tr @ [c]) cs acc = acc @ cs"
  by (induction cs arbitrary: acc) simp_all

text \<open>
  C9.  For every 2-D and every 3-D grid and every callback, \<open>ForEachCellIndex\<close>
  returns what the calls of the callback, made one after the other along the list
  \<open>cellOrder2\<close> (\<open>cellOrder3\<close>), produce from the initial state; in particular a
  callback that appends the index it receives to a list ends with exactly that list.
  The list holds every cell index of the grid, each exactly once, and its \<open>n\<close>-th
  entry is \<open>(n mod nx, n div nx)\<close> (in 3-D
  \<open>(n mod nx, (n div nx) mod ny, n div (nx * ny))\<close>): \<open>i\<close> varies fastest, the last
  axis slowest.
\<close>

theorem ForEachCellIndex_once_in_order:
  "Grid2_ForEachCellIndex g func s =
     fold (\<lambda>(i, j). func i j) (cellOrder2 (resolution g)) s
   \<and> Grid2_ForEachCellIndex g (\<lambda>i j tr. tr @ [(i, j)]) [] = cellOrder2 (resolution g)
   \<and> distinct (cellOrder2 (resolution g))
   \<and> set (cellOrder2 (resolution g)) = cells2 (resolution g)
   \<and> Grid3_ForEachCellIndex g3 func3 s3 =
     fold (\<lambda>(i, j, k). func3 i j k) (cellOrder3 (resolution3 g3)) s3
   \<and> Grid3_ForEachCellIndex g3 (\<lambda>i j k tr. tr @ [(i, j, k)]) [] = cellOrder3 (resolution3 g3)
   \<and> distinct (cellOrder3 (resolution3 g3))
   \<and> set (cellOrder3 (resolution3 g3)) = cells3 (resolution3 g3)"
proof -
  have "Grid2_ForEachCellIndex g (\<lambda>i j tr. tr @ [(i, j)]) [] = cellOrder2 (resolution g)"
    using fold_record_indices [of "cellOrder2 (resolution g)" "[]"]
    by (simp add: Grid2_ForEachCellIndex_fold case_prod_unfold)
  moreover
  have "Grid3_ForEachCellIndex g3 (\<lambda>i j k tr. tr @ [(i, j, k)]) [] = cellOrder3 (resolution3 g3)"
    using fold_record_indices [of "cellOrder3 (resolution3 g3)" "[]"]
    by (simp add: Grid3_ForEachCellIndex_fold case_prod_unfold)
  ultimately show ?thesis
    by (simp only: Grid2_ForEachCellIndex_fold Grid3_ForEachCellIndex_fold
          distinct_cellOrder2 distinct_cellOrder3 set_cellOrder2 set_cellOrder3 simp_thms)
qed


section \<open>Properties of the default arguments of Solve\<close>



end
